theory Spec2Isabelle
  imports Complex_Main
begin

section \<open>Floating-point values\<close>

text \<open>
  A Python or NumPy float is a finite number, one of the two infinities, or not-a-number.
  Finite arithmetic is taken exact over the reals: rounding, overflow and underflow are not
  modelled, and zero carries no sign (a non-zero number divided by zero is the infinity of
  the numerator's sign). The special values follow IEEE 754, which is what NumPy computes
  on float64 scalars and arrays, with a warning and no exception.
\<close>

datatype float64 = Fin real | PInf | NInf | NaN

datatype error = ValueError | IndexError | KeyError | ZeroDivisionError

fun is_nan :: "float64 \<Rightarrow> bool" where
  "is_nan NaN = True"
| "is_nan _ = False"

fun fl_neg :: "float64 \<Rightarrow> float64" where
  "fl_neg (Fin a) = Fin (- a)"
| "fl_neg PInf = NInf"
| "fl_neg NInf = PInf"
| "fl_neg NaN = NaN"

fun fl_add :: "float64 \<Rightarrow> float64 \<Rightarrow> float64" where
  "fl_add NaN _ = NaN"
| "fl_add _ NaN = NaN"
| "fl_add (Fin a) (Fin b) = Fin (a + b)"
| "fl_add PInf NInf = NaN"
| "fl_add NInf PInf = NaN"
| "fl_add PInf _ = PInf"
| "fl_add _ PInf = PInf"
| "fl_add NInf _ = NInf"
| "fl_add _ NInf = NInf"

definition fl_sub :: "float64 \<Rightarrow> float64 \<Rightarrow> float64" where
  "fl_sub a b = fl_add a (fl_neg b)"

fun fl_mul :: "float64 \<Rightarrow> float64 \<Rightarrow> float64" where
  "fl_mul NaN _ = NaN"
| "fl_mul _ NaN = NaN"
| "fl_mul (Fin a) (Fin b) = Fin (a * b)"
| "fl_mul (Fin a) PInf = (if a = 0 then NaN else if 0 < a then PInf else NInf)"
| "fl_mul (Fin a) NInf = (if a = 0 then NaN else if 0 < a then NInf else PInf)"
| "fl_mul PInf (Fin b) = (if b = 0 then NaN else if 0 < b then PInf else NInf)"
| "fl_mul NInf (Fin b) = (if b = 0 then NaN else if 0 < b then NInf else PInf)"
| "fl_mul PInf PInf = PInf"
| "fl_mul PInf NInf = NInf"
| "fl_mul NInf PInf = NInf"
| "fl_mul NInf NInf = PInf"

fun fl_div :: "float64 \<Rightarrow> float64 \<Rightarrow> float64" where
  "fl_div NaN _ = NaN"
| "fl_div _ NaN = NaN"
| "fl_div (Fin a) (Fin b) =
     (if b = 0 then (if a = 0 then NaN else if 0 < a then PInf else NInf) else Fin (a / b))"
| "fl_div (Fin a) _ = Fin 0"
| "fl_div PInf (Fin b) = (if 0 \<le> b then PInf else NInf)"
| "fl_div NInf (Fin b) = (if 0 \<le> b then NInf else PInf)"
| "fl_div _ _ = NaN"

text \<open>Comparisons: every comparison with not-a-number is false.\<close>

fun fl_lt :: "float64 \<Rightarrow> float64 \<Rightarrow> bool" where
  "fl_lt (Fin a) (Fin b) = (a < b)"
| "fl_lt (Fin a) PInf = True"
| "fl_lt NInf (Fin b) = True"
| "fl_lt NInf PInf = True"
| "fl_lt _ _ = False"

fun fl_le :: "float64 \<Rightarrow> float64 \<Rightarrow> bool" where
  "fl_le (Fin a) (Fin b) = (a \<le> b)"
| "fl_le (Fin a) PInf = True"
| "fl_le NInf (Fin b) = True"
| "fl_le NInf PInf = True"
| "fl_le PInf PInf = True"
| "fl_le NInf NInf = True"
| "fl_le _ _ = False"

text \<open>
  Python's built-in \<^verbatim>\<open>max(a, b)\<close> keeps \<^verbatim>\<open>a\<close> unless \<^verbatim>\<open>b > a\<close>, and \<^verbatim>\<open>min(a, b)\<close>
  keeps \<^verbatim>\<open>a\<close> unless \<^verbatim>\<open>b < a\<close>.
\<close>

definition py_max :: "float64 \<Rightarrow> float64 \<Rightarrow> float64" where
  "py_max a b = (if fl_lt a b then b else a)"

definition py_min :: "float64 \<Rightarrow> float64 \<Rightarrow> float64" where
  "py_min a b = (if fl_lt b a then b else a)"

subsection \<open>NumPy functions\<close>

fun np_sqrt :: "float64 \<Rightarrow> float64" where
  "np_sqrt (Fin a) = (if a < 0 then NaN else Fin (sqrt a))"
| "np_sqrt PInf = PInf"
| "np_sqrt _ = NaN"

fun np_log :: "float64 \<Rightarrow> float64" where
  "np_log (Fin a) = (if 0 < a then Fin (ln a) else if a = 0 then NInf else NaN)"
| "np_log PInf = PInf"
| "np_log _ = NaN"

fun np_sign :: "float64 \<Rightarrow> float64" where
  "np_sign (Fin a) = Fin (sgn a)"
| "np_sign PInf = Fin 1"
| "np_sign NInf = Fin (- 1)"
| "np_sign NaN = NaN"

text \<open>
  \<^verbatim>\<open>norm.cdf\<close> is the library's standard normal distribution function. The function on
  the reals is a parameter \<open>Phi\<close> of the model; at the infinities the library returns
  its limits, and not-a-number propagates.
\<close>

fun norm_cdf :: "(real \<Rightarrow> real) \<Rightarrow> float64 \<Rightarrow> float64" where
  "norm_cdf Phi (Fin a) = Fin (Phi a)"
| "norm_cdf Phi PInf = Fin 1"
| "norm_cdf Phi NInf = Fin 0"
| "norm_cdf Phi NaN = NaN"

text \<open>Arrays are lists. \<^verbatim>\<open>a[mask]\<close> selects, \<^verbatim>\<open>a[mask] = vs\<close> assigns in order.\<close>

fun np_select :: "'a list \<Rightarrow> bool list \<Rightarrow> 'a list" where
  "np_select (x # xs) (m # ms) = (if m then x # np_select xs ms else np_select xs ms)"
| "np_select _ _ = []"

fun np_assign :: "'a list \<Rightarrow> bool list \<Rightarrow> 'a list \<Rightarrow> 'a list" where
  "np_assign (e # es) (True # ms) (v # vs) = v # np_assign es ms vs"
| "np_assign (e # es) (m # ms) vs = e # np_assign es ms vs"
| "np_assign es _ _ = es"

section \<open>Fixed parameters\<close>

definition R :: float64 where "R = Fin (18 / 1000)"
definition G :: float64 where "G = Fin (20 / 100)"
definition M :: float64 where "M = Fin 2"
definition SIGMA_MIN :: real where "SIGMA_MIN = 10 / 100"
definition SIGMA_MAX :: real where "SIGMA_MAX = 65 / 100"
definition N_POINTS :: nat where "N_POINTS = 300"
definition LAMBDA_LIST :: "float64 list" where
  "LAMBDA_LIST = [Fin (20 / 100), Fin (25 / 100), Fin (30 / 100)]"

section \<open>Anchor models\<close>

text \<open>\<^verbatim>\<open>physical_anchor(sigma, g, M)\<close> of RATE_ZZ_robustness.py, on an array of volatilities.\<close>

definition physical_anchor :: "float64 list \<Rightarrow> float64 \<Rightarrow> float64 \<Rightarrow> float64 list" where
  "physical_anchor sigma g M' =
     (let mu_geo = map (\<lambda>s. fl_sub g (fl_mul (Fin (5 / 10)) (fl_mul s s))) sigma;
          et = map (\<lambda>_. NaN) sigma;
          mask = map (\<lambda>m. fl_lt (Fin 0) m) mu_geo
      in np_assign et mask (map (\<lambda>m. fl_div (np_log M') m) (np_select mu_geo mask)))"

text \<open>
  \<^verbatim>\<open>psychological_anchor_linear(sigma, lam, r)\<close>; NumPy applies it to every element when
  \<open>sigma\<close> is an array.
\<close>

definition psychological_anchor_linear :: "float64 \<Rightarrow> float64 \<Rightarrow> float64 \<Rightarrow> float64" where
  "psychological_anchor_linear sigma lam r =
     (let k = fl_add r (fl_mul lam sigma) in fl_div (Fin 1) k)"

text \<open>The two functions of rate_simulation.py, called on one NumPy scalar at a time.\<close>

definition calc_psychological_time :: "float64 \<Rightarrow> float64 \<Rightarrow> float64 \<Rightarrow> float64" where
  "calc_psychological_time r sigma risk_coeff =
     (let k = fl_add r (fl_mul risk_coeff sigma)
      in fl_div (Fin 1) (fl_add k (Fin (1 / 10 ^ 6))))"

definition calc_physical_time :: "float64 \<Rightarrow> float64 \<Rightarrow> float64 \<Rightarrow> float64" where
  "calc_physical_time g sigma M' =
     (let mu_geo = fl_sub g (fl_mul (Fin (5 / 10)) (fl_mul sigma sigma))
      in if fl_le mu_geo (Fin 0) then PInf else fl_div (np_log M') mu_geo)"

section \<open>Risk premium\<close>

text \<open>
  \<^verbatim>\<open>zz_risk_premium(sigma, n)\<close> returns a Python float on its first two exits
  (\<^verbatim>\<open>np.inf\<close> and the literal \<^verbatim>\<open>1e12\<close> are Python floats) and a NumPy float64 on the last
  one. The kind matters to the caller only where it divides: a Python float divided by a
  Python zero raises, a NumPy division by zero gives an infinity.
\<close>

datatype scalar = PyFloat float64 | NpFloat float64

fun val :: "scalar \<Rightarrow> float64" where
  "val (PyFloat v) = v"
| "val (NpFloat v) = v"

definition zz_risk_premium :: "(real \<Rightarrow> real) \<Rightarrow> float64 \<Rightarrow> float64 \<Rightarrow> scalar" where
  "zz_risk_premium Phi sigma n =
     (if fl_le n (Fin 0) then PyFloat PInf
      else let x = fl_div (fl_mul sigma (np_sqrt n)) (Fin 4);
               cdf_val = norm_cdf Phi x;
               arg = fl_mul (Fin 2) (fl_sub (Fin 1) cdf_val)
           in if fl_lt arg (Fin (1 / 10 ^ 12)) then PyFloat (Fin (10 ^ 12))
              else NpFloat (fl_div (fl_neg (np_log arg)) n))"

text \<open>
  The risk premium as the specification words it, on real numbers: the model of the
  code is compared with it.
\<close>

definition riskPremium :: "(real \<Rightarrow> real) \<Rightarrow> real \<Rightarrow> real \<Rightarrow> float64" where
  "riskPremium Phi sigma n =
     (if n \<le> 0 then PInf
      else let x = sigma * sqrt n / 4;
               arg = 2 * (1 - Phi x)
           in if arg < 1 / 10 ^ 12 then Fin (10 ^ 12) else Fin (- ln arg / n))"

section \<open>Self-consistent solver\<close>

text \<open>
  The residual \<^verbatim>\<open>equation(n)\<close> of \<^verbatim>\<open>psychological_anchor_nonlinear\<close>, with \<open>r\<close> a
  Python float (the module constant in every call of the script).
\<close>

fun add_py :: "float64 \<Rightarrow> scalar \<Rightarrow> scalar" where
  "add_py r (PyFloat c) = PyFloat (fl_add r c)"
| "add_py r (NpFloat c) = NpFloat (fl_add r c)"

fun div_py :: "float64 \<Rightarrow> scalar \<Rightarrow> error + float64" where
  "div_py a (PyFloat k) = (if k = Fin 0 then Inl ZeroDivisionError else Inr (fl_div a k))"
| "div_py a (NpFloat k) = Inr (fl_div a k)"

definition equation :: "(real \<Rightarrow> real) \<Rightarrow> float64 \<Rightarrow> float64 \<Rightarrow> float64 \<Rightarrow> error + float64" where
  "equation Phi sigma r n =
     (if fl_le n (Fin 0) then Inr (Fin (10 ^ 6))
      else let c = zz_risk_premium Phi sigma n
           in case div_py (Fin 1) (add_py r c) of
                Inl e \<Rightarrow> Inl e
              | Inr q \<Rightarrow> Inr (fl_sub n q))"

text \<open>
  \<^verbatim>\<open>root_scalar\<close> is the library's root finder. It is a parameter \<open>rs\<close> of the model:
  given the function, the two ends of the bracket, the method and the absolute tolerance,
  it raises or returns a result object, of which the solver reads \<^verbatim>\<open>root\<close> and
  \<^verbatim>\<open>converged\<close>.
\<close>

datatype rs_method = Bisect | Brentq

record root_results =
  rootv :: float64
  converged :: bool

type_synonym root_scalar =
  "(float64 \<Rightarrow> error + float64) \<Rightarrow> float64 \<Rightarrow> float64 \<Rightarrow> rs_method \<Rightarrow> real
     \<Rightarrow> error + root_results"

definition guess_lam_default :: float64 where
  "guess_lam_default = Fin (4 / 10)"

definition n_guess_of :: "float64 \<Rightarrow> float64 \<Rightarrow> float64 \<Rightarrow> float64" where
  "n_guess_of sigma r guess_lam = fl_div (Fin 1) (fl_add r (fl_mul guess_lam sigma))"

definition bracket_low :: "float64 \<Rightarrow> float64" where
  "bracket_low n_guess = py_max (fl_mul (Fin (1 / 10)) n_guess) (Fin (5 / 10))"

definition bracket_high :: "float64 \<Rightarrow> float64" where
  "bracket_high n_guess = py_min (fl_mul (Fin 10) n_guess) (Fin 50)"

text \<open>
  \<^verbatim>\<open>psychological_anchor_nonlinear(sigma, r, guess_lam)\<close>, with \<open>sigma\<close> a NumPy scalar
  as in the sweep. The bare \<^verbatim>\<open>except\<close> turns every exception of the call into
  not-a-number.
\<close>

definition psychological_anchor_nonlinear ::
  "root_scalar \<Rightarrow> (real \<Rightarrow> real) \<Rightarrow> float64 \<Rightarrow> float64 \<Rightarrow> float64 \<Rightarrow> float64" where
  "psychological_anchor_nonlinear rs Phi sigma r guess_lam =
     (let n_guess = n_guess_of sigma r guess_lam
      in case rs (equation Phi sigma r) (bracket_low n_guess) (bracket_high n_guess)
                 Bisect (1 / 10 ^ 6) of
           Inl e \<Rightarrow> NaN
         | Inr sol \<Rightarrow> if converged sol then rootv sol else NaN)"

text \<open>
  What the solver relies on from the library, for a bracket with finite ends: a root
  reported as converged lies between the two ends, and a function with values of one
  strict sign at both ends is refused with an exception.
\<close>

definition root_scalar_contract :: "root_scalar \<Rightarrow> bool" where
  "root_scalar_contract rs \<longleftrightarrow>
     (\<forall>f a b m xtol sol. rs f (Fin a) (Fin b) m xtol = Inr sol \<longrightarrow> converged sol \<longrightarrow>
        (\<exists>x. rootv sol = Fin x \<and> min a b \<le> x \<and> x \<le> max a b)) \<and>
     (\<forall>f a b m xtol fa fb. f (Fin a) = Inr fa \<longrightarrow> f (Fin b) = Inr fb \<longrightarrow>
        (fl_lt (Fin 0) fa \<and> fl_lt (Fin 0) fb \<or> fl_lt fa (Fin 0) \<and> fl_lt fb (Fin 0)) \<longrightarrow>
        (\<exists>e. rs f (Fin a) (Fin b) m xtol = Inl e))"

subsection \<open>Bisection\<close>

text \<open>
  The library's bisection as it is documented, the instance of \<open>rs\<close> on which the
  theorems are tried: the function is evaluated at both ends, an end with value zero is
  the root, equal signs are refused, and the interval is halved until its half-width is
  below \<open>xtol + rtol * |xm|\<close> or the iterations are used up. A not-a-number value
  raises.
\<close>

fun fl_abs :: "float64 \<Rightarrow> float64" where
  "fl_abs (Fin a) = Fin \<bar>a\<bar>"
| "fl_abs PInf = PInf"
| "fl_abs NInf = PInf"
| "fl_abs NaN = NaN"

fun bisect_loop ::
  "(float64 \<Rightarrow> error + float64) \<Rightarrow> float64 \<Rightarrow> float64 \<Rightarrow> float64 \<Rightarrow> real \<Rightarrow> real \<Rightarrow> nat
     \<Rightarrow> error + root_results" where
  "bisect_loop f xa dm fa xtol rtol 0 = Inr \<lparr>rootv = xa, converged = False\<rparr>"
| "bisect_loop f xa dm fa xtol rtol (Suc k) =
     (let dm' = fl_mul dm (Fin (1 / 2));
          xm = fl_add xa dm'
      in case f xm of
           Inl e \<Rightarrow> Inl e
         | Inr fm \<Rightarrow>
             if is_nan fm then Inl ValueError
             else let xa' = (if fl_le (Fin 0) (fl_mul fm fa) then xm else xa)
                  in if fm = Fin 0 \<or>
                        fl_lt (fl_abs dm') (fl_add (Fin xtol) (fl_mul (Fin rtol) (fl_abs xm)))
                     then Inr \<lparr>rootv = xm, converged = True\<rparr>
                     else bisect_loop f xa' dm' fa xtol rtol k)"

definition bisect ::
  "(float64 \<Rightarrow> error + float64) \<Rightarrow> float64 \<Rightarrow> float64 \<Rightarrow> real \<Rightarrow> real \<Rightarrow> nat
     \<Rightarrow> error + root_results" where
  "bisect f a b xtol rtol maxiter =
     (case f a of
        Inl e \<Rightarrow> Inl e
      | Inr fa \<Rightarrow>
          if is_nan fa then Inl ValueError
          else (case f b of
                  Inl e \<Rightarrow> Inl e
                | Inr fb \<Rightarrow>
                    if is_nan fb then Inl ValueError
                    else if fa = Fin 0 then Inr \<lparr>rootv = a, converged = True\<rparr>
                    else if fb = Fin 0 then Inr \<lparr>rootv = b, converged = True\<rparr>
                    else if fl_lt fa (Fin 0) = fl_lt fb (Fin 0) then Inl ValueError
                    else bisect_loop f a (fl_sub b a) fa xtol rtol maxiter))"

definition root_scalar_bisect :: root_scalar where
  "root_scalar_bisect f a b m xtol = bisect f a b xtol (1 / 2 ^ 50) 100"

section \<open>Sweep over the volatility grid\<close>

definition np_linspace :: "real \<Rightarrow> real \<Rightarrow> nat \<Rightarrow> float64 list" where
  "np_linspace start stop num =
     (if num = 1 then [Fin start]
      else map (\<lambda>i. Fin (start + real i * ((stop - start) / real (num - 1)))) [0..<num])"

definition sigma_grid :: "float64 list" where
  "sigma_grid = np_linspace SIGMA_MIN SIGMA_MAX N_POINTS"

definition n_nonlin :: "root_scalar \<Rightarrow> (real \<Rightarrow> real) \<Rightarrow> float64 list \<Rightarrow> float64 list" where
  "n_nonlin rs Phi grid =
     map (\<lambda>s. psychological_anchor_nonlinear rs Phi s R guess_lam_default) grid"

definition valid_mask :: "float64 list \<Rightarrow> bool list" where
  "valid_mask ns = map (\<lambda>v. \<not> is_nan v) ns"

section \<open>Intersection finder\<close>

text \<open>Elementwise difference of two arrays, an array of length one being broadcast.\<close>

definition np_sub :: "float64 list \<Rightarrow> float64 list \<Rightarrow> error + float64 list" where
  "np_sub a b =
     (if length a = length b then Inr (map2 fl_sub a b)
      else if length b = 1 then Inr (map (\<lambda>x. fl_sub x (hd b)) a)
      else if length a = 1 then Inr (map (\<lambda>y. fl_sub (hd a) y) b)
      else Inl ValueError)"

definition np_diff :: "float64 list \<Rightarrow> float64 list" where
  "np_diff v = map2 fl_sub (tl v) v"

text \<open>\<^verbatim>\<open>np.where(v)[0]\<close>: the indices of the elements that are not zero, in order.\<close>

definition np_where :: "float64 list \<Rightarrow> nat list" where
  "np_where v = filter (\<lambda>i. v ! i \<noteq> Fin 0) [0..<length v]"

definition find_intersection ::
  "float64 list \<Rightarrow> float64 list \<Rightarrow> float64 list \<Rightarrow> error + float64 option" where
  "find_intersection x y1 y2 =
     (case np_sub y1 y2 of
        Inl e \<Rightarrow> Inl e
      | Inr diff \<Rightarrow>
          let sign_change = np_where (np_diff (map np_sign diff))
          in if length sign_change = 0 then Inr None
             else let idx = hd sign_change
                  in if idx + 1 < length x
                     then let x1 = x ! idx; x2 = x ! (idx + 1);
                              y1_1 = diff ! idx; y1_2 = diff ! (idx + 1)
                          in Inr (Some (fl_sub x1
                                 (fl_div (fl_mul y1_1 (fl_sub x2 x1)) (fl_sub y1_2 y1_1))))
                     else Inl IndexError)"

text \<open>The two equilibria of the script: on the valid sub-grid, and one per coefficient.\<close>

definition sigma_star_nonlin ::
  "root_scalar \<Rightarrow> (real \<Rightarrow> real) \<Rightarrow> float64 list \<Rightarrow> error + float64 option" where
  "sigma_star_nonlin rs Phi grid =
     (let E_T = physical_anchor grid G M;
          nn = n_nonlin rs Phi grid;
          vm = valid_mask nn
      in find_intersection (np_select grid vm) (np_select nn vm) (np_select E_T vm))"

fun sigma_star_lin_dict ::
  "float64 list \<Rightarrow> float64 list \<Rightarrow> (float64 \<rightharpoonup> float64 option)
     \<Rightarrow> error + (float64 \<rightharpoonup> float64 option)" where
  "sigma_star_lin_dict [] grid d = Inr d"
| "sigma_star_lin_dict (lam # lams) grid d =
     (case find_intersection grid (map (\<lambda>s. psychological_anchor_linear s lam R) grid)
             (physical_anchor grid G M) of
        Inl e \<Rightarrow> Inl e
      | Inr v \<Rightarrow> sigma_star_lin_dict lams grid (d(lam \<mapsto> v)))"

section \<open>Table B-1\<close>

text \<open>The rows printed by the loop over the coefficients: one record per printed line.\<close>

record table_row =
  row_lam :: float64
  row_lin_star :: float64
  row_nonlin_star :: float64
  row_diff :: float64

fun table_B1 ::
  "float64 list \<Rightarrow> (float64 \<rightharpoonup> float64 option) \<Rightarrow> float64 option \<Rightarrow> error + table_row list" where
  "table_B1 [] d nonlin_star = Inr []"
| "table_B1 (lam # lams) d nonlin_star =
     (case d lam of
        None \<Rightarrow> Inl KeyError
      | Some lin_star \<Rightarrow>
          (case table_B1 lams d nonlin_star of
             Inl e \<Rightarrow> Inl e
           | Inr rows \<Rightarrow>
               (case (lin_star, nonlin_star) of
                  (Some l, Some n) \<Rightarrow>
                    Inr (\<lparr>row_lam = lam, row_lin_star = l, row_nonlin_star = n,
                          row_diff = fl_sub l n\<rparr> # rows)
                | _ \<Rightarrow> Inr rows)))"

section \<open>A distribution function for the worked instances\<close>

text \<open>
  The theorems hold for every \<open>Phi\<close> with the property they assume. The instances are
  worked with a distribution function that has rational values at rational points.
\<close>

definition Phi_sigmoid :: "real \<Rightarrow> real" where
  "Phi_sigmoid x = 1 / 2 + x / (2 * (1 + \<bar>x\<bar>))"

section \<open>Arithmetic on finite values\<close>

lemma fl_sub_Fin [simp]: "fl_sub (Fin a) (Fin b) = Fin (a - b)"
  by (simp add: fl_sub_def)

section \<open>Anchor models: results\<close>

lemma np_assign_select:
  "np_assign (map (\<lambda>_. d) xs) (map P xs) (map f (np_select xs (map P xs)))
     = map (\<lambda>x. if P x then f x else d) xs"
  by (induction xs) auto

lemma physical_anchor_pointwise:
  "physical_anchor sigma g M' =
     map (\<lambda>s. let mu = fl_sub g (fl_mul (Fin (5 / 10)) (fl_mul s s))
               in if fl_lt (Fin 0) mu then fl_div (np_log M') mu else NaN) sigma"
proof -
  let ?mu = "\<lambda>s. fl_sub g (fl_mul (Fin (5 / 10)) (fl_mul s s))"
  have "np_assign (map (\<lambda>_. NaN) (map ?mu sigma)) (map (\<lambda>m. fl_lt (Fin 0) m) (map ?mu sigma))
          (map (\<lambda>m. fl_div (np_log M') m) (np_select (map ?mu sigma) (map (\<lambda>m. fl_lt (Fin 0) m) (map ?mu sigma))))
        = map (\<lambda>m. if fl_lt (Fin 0) m then fl_div (np_log M') m else NaN) (map ?mu sigma)"
    by (rule np_assign_select)
  then show ?thesis
    by (simp add: physical_anchor_def Let_def comp_def)
qed

text \<open>
  Claim C6, as amended. For a target multiple \<open>m > 0\<close>, \<^verbatim>\<open>physical_anchor\<close> returns an
  array as long as the grid, whose entry at \<open>i\<close> is not-a-number when
  \<open>g - 0.5 * sigma\<^sub>i\<^sup>2 \<le> 0\<close> and \<open>ln m / (g - 0.5 * sigma\<^sub>i\<^sup>2)\<close> otherwise: an undefined point
  does not stop the evaluation of the others. \<^verbatim>\<open>calc_physical_time\<close> of rate_simulation.py
  has the same value for a positive drift, and returns plus infinity, not not-a-number, for
  a drift that is not positive.
\<close>

theorem physical_anchor_value:
  assumes "0 < m"
  shows "length (physical_anchor (map Fin sigmas) (Fin g) (Fin m)) = length sigmas \<and>
         (\<forall>i < length sigmas. physical_anchor (map Fin sigmas) (Fin g) (Fin m) ! i =
            (if g - 5 / 10 * (sigmas ! i)\<^sup>2 \<le> 0 then NaN
             else Fin (ln m / (g - 5 / 10 * (sigmas ! i)\<^sup>2)))) \<and>
         calc_physical_time (Fin g) (Fin s) (Fin m) =
            (if g - 5 / 10 * s\<^sup>2 \<le> 0 then PInf else Fin (ln m / (g - 5 / 10 * s\<^sup>2)))"
  using assms
  by (auto simp: physical_anchor_pointwise calc_physical_time_def Let_def power2_eq_square)

theorem physical_anchor_value_witness:
  "(0::real) < 2 \<and>
   physical_anchor (map Fin [1 / 10, 7 / 10]) (Fin (2 / 10)) (Fin 2) ! 0 = Fin (ln 2 / (39 / 200)) \<and>
   physical_anchor (map Fin [1 / 10, 7 / 10]) (Fin (2 / 10)) (Fin 2) ! 1 = NaN \<and>
   calc_physical_time (Fin (2 / 10)) (Fin (7 / 10)) (Fin 2) = PInf"
proof -
  have h: "(0::real) < 2" by simp
  note t = physical_anchor_value [OF h, of "[1 / 10, 7 / 10]" "2 / 10" "7 / 10"]
  from t have "\<forall>i<2. physical_anchor (map Fin [1 / 10, 7 / 10]) (Fin (2 / 10)) (Fin 2) ! i =
       (if 2 / 10 - 5 / 10 * ([1 / 10, 7 / 10] ! i)\<^sup>2 \<le> (0::real) then NaN
        else Fin (ln 2 / (2 / 10 - 5 / 10 * ([1 / 10, 7 / 10] ! i)\<^sup>2)))"
    by simp
  then have "physical_anchor (map Fin [1 / 10, 7 / 10]) (Fin (2 / 10)) (Fin 2) ! 0
               = Fin (ln 2 / (39 / 200))"
    and "physical_anchor (map Fin [1 / 10, 7 / 10]) (Fin (2 / 10)) (Fin 2) ! 1 = NaN"
    by (simp_all add: power2_eq_square)
  moreover from t have "calc_physical_time (Fin (2 / 10)) (Fin (7 / 10)) (Fin 2) = PInf"
    by (simp add: power2_eq_square)
  ultimately show ?thesis by simp
qed

text \<open>
  Claim C6 as stated fails on \<^verbatim>\<open>calc_physical_time\<close>: at \<open>g = 0.2\<close>, \<open>sigma = 1\<close> the
  drift is negative and the value is plus infinity, which is not not-a-number.
\<close>

theorem calc_physical_time_not_nan:
  "(2 / 10 - 5 / 10 * 1\<^sup>2 \<le> (0::real)) \<and>
   \<not> is_nan (calc_physical_time (Fin (2 / 10)) (Fin 1) (Fin 2)) \<and>
   calc_physical_time (Fin (2 / 10)) (Fin 1) (Fin 2) = PInf"
  by (simp add: calc_physical_time_def Let_def)

text \<open>
  Claim C7, as amended. For \<open>sigma \<ge> 0\<close>, \<open>lam \<ge> 0\<close> and \<open>r > 0\<close>,
  \<^verbatim>\<open>psychological_anchor_linear\<close> equals \<open>1 / (r + lam * sigma)\<close>, which is finite and
  strictly positive. \<^verbatim>\<open>calc_psychological_time\<close> of rate_simulation.py adds \<open>10\<^sup>-\<^sup>6\<close> to
  the denominator: its value \<open>1 / (r + lam * sigma + 10\<^sup>-\<^sup>6)\<close> is finite, strictly positive
  and strictly below \<open>1 / (r + lam * sigma)\<close>.
\<close>

theorem psychological_anchor_linear_value:
  assumes "0 \<le> sigma" "0 \<le> lam" "0 < r"
  shows "psychological_anchor_linear (Fin sigma) (Fin lam) (Fin r) = Fin (1 / (r + lam * sigma)) \<and>
         0 < 1 / (r + lam * sigma) \<and>
         calc_psychological_time (Fin r) (Fin sigma) (Fin lam)
           = Fin (1 / (r + lam * sigma + 1 / 10 ^ 6)) \<and>
         0 < 1 / (r + lam * sigma + 1 / 10 ^ 6) \<and>
         1 / (r + lam * sigma + 1 / 10 ^ 6) < 1 / (r + lam * sigma)"
proof -
  have k: "0 < r + lam * sigma" using assms by (simp add: add_pos_nonneg)
  then show ?thesis
    by (simp add: psychological_anchor_linear_def calc_psychological_time_def Let_def frac_less2)
qed

theorem psychological_anchor_linear_value_witness:
  "(0::real) \<le> 1 / 2 \<and> (0::real) \<le> 2 / 10 \<and> (0::real) < 1 / 10 \<and>
   psychological_anchor_linear (Fin (1 / 2)) (Fin (2 / 10)) (Fin (1 / 10)) = Fin 5 \<and>
   calc_psychological_time (Fin (1 / 10)) (Fin (1 / 2)) (Fin (2 / 10)) = Fin (1000000 / 200001)"
  using psychological_anchor_linear_value [of "1 / 2" "2 / 10" "1 / 10"] by simp

text \<open>
  Claim C7 as stated fails on \<^verbatim>\<open>calc_psychological_time\<close>: at \<open>r = 1\<close>, \<open>sigma = 0\<close>,
  \<open>lam = 0.2\<close> the value is not \<open>1 / (r + lam * sigma) = 1\<close>.
\<close>

theorem calc_psychological_time_not_exact:
  "calc_psychological_time (Fin 1) (Fin 0) (Fin (2 / 10)) \<noteq> Fin (1 / (1 + 2 / 10 * 0))"
  by (simp add: calc_psychological_time_def Let_def)

section \<open>Risk premium: results\<close>

lemma zz_risk_premium_Fin:
  "val (zz_risk_premium Phi (Fin sigma) (Fin n)) = riskPremium Phi sigma n"
  by (auto simp: zz_risk_premium_def riskPremium_def Let_def)

lemma riskPremium_PInf: "riskPremium Phi sigma n = PInf \<longleftrightarrow> n \<le> 0"
  by (simp add: riskPremium_def Let_def)

lemma riskPremium_nonneg:
  assumes "\<forall>x\<ge>0. 1 / 2 \<le> Phi x" and "0 \<le> sigma" and "0 < n"
  shows "\<exists>c. riskPremium Phi sigma n = Fin c \<and> 0 \<le> c"
proof -
  define arg where "arg = 2 * (1 - Phi (sigma * sqrt n / 4))"
  have rp: "riskPremium Phi sigma n =
              (if arg < 1 / 10 ^ 12 then Fin (10 ^ 12) else Fin (- ln arg / n))"
    using assms(3) by (simp add: riskPremium_def Let_def arg_def)
  have "0 \<le> sigma * sqrt n / 4" using assms(2,3) by simp
  then have "1 / 2 \<le> Phi (sigma * sqrt n / 4)" using assms(1) by blast
  then have le1: "arg \<le> 1" by (simp add: arg_def)
  show ?thesis
  proof (cases "arg < 1 / 10 ^ 12")
    case True
    then show ?thesis by (simp add: rp)
  next
    case False
    have "(0::real) < 1 / 10 ^ 12" by simp
    with False have "0 < arg" by linarith
    with le1 have "ln arg \<le> 0" by simp
    then have "0 \<le> - ln arg / n" using assms(3) by (simp add: divide_le_0_iff)
    with False show ?thesis by (simp add: rp)
  qed
qed

lemma Phi_sigmoid_half: "\<forall>x\<ge>0. 1 / 2 \<le> Phi_sigmoid x"
  by (simp add: Phi_sigmoid_def)

text \<open>
  Claim C2. On a finite volatility and a finite \<open>n\<close>, \<^verbatim>\<open>zz_risk_premium\<close> computes the risk
  premium of the specification: plus infinity for \<open>n \<le> 0\<close>; otherwise, with
  \<open>x = sigma * sqrt n / 4\<close> and \<open>arg = 2 * (1 - Phi x)\<close>, the sentinel \<open>10\<^sup>1\<^sup>2\<close> when
  \<open>arg < 10\<^sup>-\<^sup>1\<^sup>2\<close> and \<open>- ln arg / n\<close> otherwise. No intermediate value is infinite or
  not-a-number.
\<close>

theorem zz_risk_premium_refines:
  "val (zz_risk_premium Phi (Fin sigma) (Fin n)) =
     (if n \<le> 0 then PInf
      else if 2 * (1 - Phi (sigma * sqrt n / 4)) < 1 / 10 ^ 12 then Fin (10 ^ 12)
      else Fin (- ln (2 * (1 - Phi (sigma * sqrt n / 4))) / n)) \<and>
   val (zz_risk_premium Phi (Fin sigma) (Fin n)) = riskPremium Phi sigma n"
  by (simp add: zz_risk_premium_Fin) (simp add: riskPremium_def Let_def)

text \<open>
  Claim C9. Let \<open>Phi x \<ge> 1/2\<close> for every \<open>x \<ge> 0\<close>, as the standard normal distribution
  function has it. For \<open>sigma \<ge> 0\<close> and \<open>n > 0\<close> the risk premium is a finite number that
  is not negative; and, for every volatility, the result is plus infinity exactly when
  \<open>n \<le> 0\<close>.
\<close>

theorem zz_risk_premium_finite_nonneg:
  assumes "\<forall>x\<ge>0. 1 / 2 \<le> Phi x" and "0 \<le> sigma" and "0 < n"
  shows "(\<exists>c. val (zz_risk_premium Phi (Fin sigma) (Fin n)) = Fin c \<and> 0 \<le> c) \<and>
         (\<forall>s m. val (zz_risk_premium Phi (Fin s) (Fin m)) = PInf \<longleftrightarrow> m \<le> 0)"
  using riskPremium_nonneg [OF assms] by (simp add: zz_risk_premium_Fin riskPremium_PInf)

theorem zz_risk_premium_finite_nonneg_witness:
  "1 / 2 \<le> Phi_sigmoid (4 * sqrt 1 / 4) \<and> (0::real) \<le> 4 \<and> (0::real) < 1 \<and>
   val (zz_risk_premium Phi_sigmoid (Fin 4) (Fin 1)) = Fin (ln 2) \<and> 0 \<le> ln (2::real)"
proof -
  have "val (zz_risk_premium Phi_sigmoid (Fin 4) (Fin 1)) = Fin (ln 2)"
    by (simp add: zz_risk_premium_def Phi_sigmoid_def Let_def ln_div)
  then show ?thesis
    using zz_risk_premium_finite_nonneg [of Phi_sigmoid 4 1] Phi_sigmoid_half by simp
qed

section \<open>Intersection finder: results\<close>


lemma length_np_diff [simp]: "length (np_diff v) = length v - 1"
  by (simp add: np_diff_def)

lemma np_diff_nth: "i + 1 < length v \<Longrightarrow> np_diff v ! i = fl_sub (v ! (i + 1)) (v ! i)"
  by (simp add: np_diff_def nth_tl)

lemma np_sub_Fin:
  "length bs = length as \<Longrightarrow>
     np_sub (map Fin as) (map Fin bs) = Inr (map Fin (map2 (-) as bs))"
  by (simp add: np_sub_def zip_map_map comp_def case_prod_unfold fl_sub_def)

lemma sign_diff_Fin_nth:
  "i + 1 < length ds \<Longrightarrow>
     np_diff (map np_sign (map Fin ds)) ! i = Fin (sgn (ds ! (i + 1)) - sgn (ds ! i))"
  by (simp add: np_diff_nth fl_sub_def)

lemma np_where_mem:
  "idx \<in> set (np_where v) \<longleftrightarrow> idx < length v \<and> v ! idx \<noteq> Fin 0"
  by (auto simp: np_where_def)

lemma sign_change_denominator:
  assumes "idx \<in> set (np_where (np_diff (map np_sign diff)))"
  shows "idx + 1 < length diff \<and> fl_sub (diff ! (idx + 1)) (diff ! idx) \<noteq> Fin 0"
proof -
  from assms have lt: "idx + 1 < length diff"
    and nz: "np_diff (map np_sign diff) ! idx \<noteq> Fin 0"
    by (auto simp: np_where_mem)
  from lt nz have nz': "fl_sub (np_sign (diff ! (idx + 1))) (np_sign (diff ! idx)) \<noteq> Fin 0"
    by (simp add: np_diff_nth)
  have "fl_sub (diff ! (idx + 1)) (diff ! idx) \<noteq> Fin 0"
  proof
    assume z: "fl_sub (diff ! (idx + 1)) (diff ! idx) = Fin 0"
    then obtain a b where "diff ! (idx + 1) = Fin a" "diff ! idx = Fin b" "a = b"
      by (cases "diff ! (idx + 1)"; cases "diff ! idx") (auto simp: fl_sub_def)
    with nz' show False by (simp add: fl_sub_def)
  qed
  with lt show ?thesis by simp
qed


lemma np_where_sign_Fin:
  "np_where (np_diff (map np_sign (map Fin ds))) =
     filter (\<lambda>i. sgn (ds ! (i + 1)) \<noteq> sgn (ds ! i)) [0..<length ds - 1]"
proof -
  have "(np_diff (map np_sign (map Fin ds)) ! i \<noteq> Fin 0) = (sgn (ds ! (i + 1)) \<noteq> sgn (ds ! i))"
    if "i + 1 < length ds" for i
    using sign_diff_Fin_nth [OF that] by simp
  then show ?thesis
    unfolding np_where_def by (intro filter_cong) auto
qed

lemma find_intersection_Fin:
  assumes "np_sub y1 y2 = Inr (map Fin ds)"
  shows "find_intersection x y1 y2 =
     (let sign_change = filter (\<lambda>i. sgn (ds ! (i + 1)) \<noteq> sgn (ds ! i)) [0..<length ds - 1]
      in if sign_change = [] then Inr None
         else let idx = hd sign_change
              in if idx + 1 < length x
                 then Inr (Some (fl_sub (x ! idx)
                        (fl_div (fl_mul (map Fin ds ! idx) (fl_sub (x ! (idx + 1)) (x ! idx)))
                                (fl_sub (map Fin ds ! (idx + 1)) (map Fin ds ! idx)))))
                 else Inl IndexError)"
  unfolding find_intersection_def assms
  by (simp only: np_where_sign_Fin sum.case Let_def length_0_conv)



text \<open>
  Claim C10. When \<^verbatim>\<open>find_intersection\<close> returns a crossing for aligned curves of finite
  values, it comes from an adjacent pair \<open>(i, i + 1)\<close> with different signs of the
  difference, the denominator \<open>d\<^sub>i\<^sub>+\<^sub>1 - d\<^sub>i\<close> is not zero, and the crossing is the finite
  quotient formula. On any array, finite or not, the denominator at a detected index is
  never zero.
\<close>

theorem find_intersection_no_zero_division:
  assumes "length xs = length as" and "length bs = length as"
    and "find_intersection (map Fin xs) (map Fin as) (map Fin bs) = Inr (Some v)"
  shows "(\<exists>i. i + 1 < length as \<and>
            sgn (as ! i - bs ! i) \<noteq> sgn (as ! (i + 1) - bs ! (i + 1)) \<and>
            (as ! (i + 1) - bs ! (i + 1)) - (as ! i - bs ! i) \<noteq> 0 \<and>
            v = Fin (xs ! i - (as ! i - bs ! i) * (xs ! (i + 1) - xs ! i)
                       / ((as ! (i + 1) - bs ! (i + 1)) - (as ! i - bs ! i)))) \<and>
         (\<forall>diff idx. idx \<in> set (np_where (np_diff (map np_sign diff))) \<longrightarrow>
            fl_sub (diff ! (idx + 1)) (diff ! idx) \<noteq> Fin 0)"
proof -
  define ds where "ds = map2 (-) as bs"
  let ?P = "\<lambda>i. sgn (ds ! (i + 1)) \<noteq> sgn (ds ! i)"
  define sc where "sc = filter ?P [0..<length ds - 1]"
  have sub: "np_sub (map Fin as) (map Fin bs) = Inr (map Fin ds)"
    unfolding ds_def using assms(2) by (rule np_sub_Fin)
  have n: "length ds = length as" using assms(2) by (simp add: ds_def)
  have d: "ds ! j = as ! j - bs ! j" if "j < length as" for j
    using that assms(2) by (simp add: ds_def)
  have fi: "find_intersection (map Fin xs) (map Fin as) (map Fin bs) =
      (if sc = [] then Inr None
       else if hd sc + 1 < length (map Fin xs)
            then Inr (Some (fl_sub (map Fin xs ! hd sc)
                   (fl_div (fl_mul (map Fin ds ! hd sc)
                              (fl_sub (map Fin xs ! (hd sc + 1)) (map Fin xs ! hd sc)))
                           (fl_sub (map Fin ds ! (hd sc + 1)) (map Fin ds ! hd sc)))))
            else Inl IndexError)"
    unfolding find_intersection_Fin [OF sub] sc_def Let_def ..
  from assms(3) fi have ne: "sc \<noteq> []" by (auto split: if_splits)
  then have "hd sc \<in> set sc" by (rule hd_in_set)
  then have lt: "hd sc + 1 < length as" and ch: "?P (hd sc)"
    using n by (auto simp: sc_def)
  have di: "ds ! hd sc = as ! hd sc - bs ! hd sc"
    and dsi: "ds ! (hd sc + 1) = as ! (hd sc + 1) - bs ! (hd sc + 1)"
    using lt by (simp_all add: d)
  have nz: "ds ! (hd sc + 1) - ds ! hd sc \<noteq> 0" using ch by auto
  have "v = Fin (xs ! hd sc - ds ! hd sc * (xs ! (hd sc + 1) - xs ! hd sc)
                   / (ds ! (hd sc + 1) - ds ! hd sc))"
    using assms(1,3) ne lt n nz unfolding fi by simp
  with lt ch nz have "\<exists>i. i + 1 < length as \<and>
            sgn (as ! i - bs ! i) \<noteq> sgn (as ! (i + 1) - bs ! (i + 1)) \<and>
            (as ! (i + 1) - bs ! (i + 1)) - (as ! i - bs ! i) \<noteq> 0 \<and>
            v = Fin (xs ! i - (as ! i - bs ! i) * (xs ! (i + 1) - xs ! i)
                       / ((as ! (i + 1) - bs ! (i + 1)) - (as ! i - bs ! i)))"
    unfolding di dsi by (intro exI [of _ "hd sc"]) auto
  then show ?thesis using sign_change_denominator by blast
qed

theorem find_intersection_no_zero_division_witness:
  "find_intersection (map Fin [0, 1]) (map Fin [0, 2]) (map Fin [1, 1]) = Inr (Some (Fin (1 / 2))) \<and>
   (2 - 1) - (0 - 1) \<noteq> (0::real)"
proof -
  have e: "find_intersection (map Fin [0, 1]) (map Fin [0, 2]) (map Fin [1, 1])
             = Inr (Some (Fin (1 / 2)))"
    by (simp add: find_intersection_def np_sub_def np_diff_def np_where_def Let_def)
  from find_intersection_no_zero_division [OF _ _ e] show ?thesis using e by simp
qed




text \<open>
  Claim C5, evaluated at inputs where it fails. On the two-point grid \<open>[0.60, 0.65]\<close> the
  physical anchor is not-a-number at the second point, the linear curve does not cross it
  at the first, and \<^verbatim>\<open>find_intersection\<close> returns not-a-number as the crossing instead of
  \<^verbatim>\<open>None\<close>. On the second input the not-a-number pair \<open>(0, 1)\<close> hides the crossing of the
  pair \<open>(1, 2)\<close>. The dictionary of linear equilibria then holds not-a-number for the
  coefficient, and Table B-1 prints a row for it. The cause: \<^verbatim>\<open>np.sign\<close> of not-a-number
  is not-a-number, its difference with a neighbour is not-a-number, and \<^verbatim>\<open>np.where\<close>
  counts not-a-number as non-zero.
\<close>

theorem find_intersection_nan_crossing:
  "physical_anchor [Fin (60 / 100), Fin (65 / 100)] G M = [Fin (ln 2 / (2 / 100)), NaN] \<and>
   find_intersection [Fin (60 / 100), Fin (65 / 100)]
      (map (\<lambda>s. psychological_anchor_linear s (Fin (20 / 100)) R) [Fin (60 / 100), Fin (65 / 100)])
      (physical_anchor [Fin (60 / 100), Fin (65 / 100)] G M) = Inr (Some NaN) \<and>
   find_intersection [Fin 0, Fin 1, Fin 2] [NaN, Fin 1, Fin 3] [Fin 0, Fin 0, Fin 4] = Inr (Some NaN) \<and>
   (\<exists>d. sigma_star_lin_dict [Fin (20 / 100)] [Fin (60 / 100), Fin (65 / 100)] Map.empty = Inr d \<and>
        d (Fin (20 / 100)) = Some (Some NaN) \<and>
        map row_lin_star (projr (table_B1 [Fin (20 / 100)] d (Some (Fin (1 / 2))))) = [NaN])"
  by (simp add: physical_anchor_def find_intersection_def np_sub_def np_diff_def np_where_def
      psychological_anchor_linear_def G_def M_def R_def Let_def fl_sub_def)

section \<open>Self-consistent solver: results\<close>

lemma py_max_Fin [simp]: "py_max (Fin a) (Fin b) = Fin (max a b)"
  by (simp add: py_max_def max_def)

lemma py_min_Fin [simp]: "py_min (Fin a) (Fin b) = Fin (min a b)"
  by (simp add: py_min_def min_def)

lemma bisect_loop_bracket:
  "bisect_loop f (Fin xa) (Fin dm) fa xtol rtol k = Inr sol \<Longrightarrow> converged sol \<Longrightarrow>
     \<exists>x. rootv sol = Fin x \<and> min xa (xa + dm) \<le> x \<and> x \<le> max xa (xa + dm)"
proof (induction k arbitrary: xa dm)
  case 0
  then show ?case by auto
next
  case (Suc k)
  let ?xm = "xa + dm * (1 / 2)"
  from Suc.prems(1) obtain fm where fm: "f (Fin ?xm) = Inr fm" "\<not> is_nan fm"
    by (auto simp: Let_def split: sum.splits if_splits)
  show ?case
  proof (cases "fm = Fin 0 \<or>
      fl_lt (fl_abs (Fin (dm * (1 / 2)))) (fl_add (Fin xtol) (fl_mul (Fin rtol) (fl_abs (Fin ?xm))))")
    case True
    with Suc.prems fm have "rootv sol = Fin ?xm" by (auto simp: Let_def)
    moreover have "min xa (xa + dm) \<le> ?xm \<and> ?xm \<le> max xa (xa + dm)"
      by (cases "0 \<le> dm") (auto simp: min_def max_def)
    ultimately show ?thesis by blast
  next
    case False
    define xa' where "xa' = (if fl_le (Fin 0) (fl_mul fm fa) then ?xm else xa)"
    from False Suc.prems(1) fm
    have "bisect_loop f (Fin xa') (Fin (dm * (1 / 2))) fa xtol rtol k = Inr sol"
      by (auto simp: Let_def xa'_def split: if_splits)
    from Suc.IH [OF this Suc.prems(2)] obtain x where
      x: "rootv sol = Fin x" "min xa' (xa' + dm * (1 / 2)) \<le> x" "x \<le> max xa' (xa' + dm * (1 / 2))"
      by blast
    have "min xa (xa + dm) \<le> x \<and> x \<le> max xa (xa + dm)"
      using x(2,3) by (cases "0 \<le> dm") (auto simp: xa'_def min_def max_def split: if_splits)
    with x(1) show ?thesis by blast
  qed
qed

lemma bisect_bracket:
  assumes "bisect f (Fin a) (Fin b) xtol rtol k = Inr sol" and "converged sol"
  shows "\<exists>x. rootv sol = Fin x \<and> min a b \<le> x \<and> x \<le> max a b"
proof -
  from assms(1) obtain fa fb where f: "f (Fin a) = Inr fa" "f (Fin b) = Inr fb"
    by (auto simp: bisect_def split: sum.splits if_splits)
  consider (a) "rootv sol = Fin a" | (b) "rootv sol = Fin b"
    | (loop) "bisect_loop f (Fin a) (Fin (b - a)) fa xtol rtol k = Inr sol"
    using assms(1) f by (auto simp: bisect_def split: if_splits)
  then show ?thesis
  proof cases
    case loop
    from bisect_loop_bracket [OF this assms(2)] show ?thesis by simp
  qed auto
qed

lemma bisect_same_sign:
  assumes "f a = Inr fa" and "f b = Inr fb"
    and "fl_lt (Fin 0) fa \<and> fl_lt (Fin 0) fb \<or> fl_lt fa (Fin 0) \<and> fl_lt fb (Fin 0)"
  shows "bisect f a b xtol rtol k = Inl ValueError"
  using assms by (cases fa; cases fb) (auto simp: bisect_def)

lemma root_scalar_bisect_contract: "root_scalar_contract root_scalar_bisect"
  unfolding root_scalar_contract_def root_scalar_bisect_def
  using bisect_bracket bisect_same_sign by blast

lemma n_guess_Fin:
  assumes "0 \<le> sigma" "0 < r" "0 \<le> gl"
  shows "n_guess_of (Fin sigma) (Fin r) (Fin gl) = Fin (1 / (r + gl * sigma))"
proof -
  have "0 < r + gl * sigma" using assms by (simp add: add_pos_nonneg)
  then show ?thesis by (simp add: n_guess_of_def)
qed

lemma solver_unfold:
  assumes "0 \<le> sigma" "0 < r" "0 \<le> gl"
  shows "psychological_anchor_nonlinear rs Phi (Fin sigma) (Fin r) (Fin gl) =
     (case rs (equation Phi (Fin sigma) (Fin r))
              (Fin (max (1 / 10 * (1 / (r + gl * sigma))) (5 / 10)))
              (Fin (min (10 * (1 / (r + gl * sigma))) 50)) Bisect (1 / 10 ^ 6) of
        Inl e \<Rightarrow> NaN
      | Inr sol \<Rightarrow> if converged sol then rootv sol else NaN)"
  unfolding psychological_anchor_nonlinear_def n_guess_Fin [OF assms] Let_def
    bracket_low_def bracket_high_def
  by simp

lemma solver_in_bracket:
  assumes c: "root_scalar_contract rs" and a: "0 \<le> sigma" "0 < r" "0 \<le> gl"
    and res: "psychological_anchor_nonlinear rs Phi (Fin sigma) (Fin r) (Fin gl) \<noteq> NaN"
  shows "\<exists>n. psychological_anchor_nonlinear rs Phi (Fin sigma) (Fin r) (Fin gl) = Fin n \<and>
           min (max (1 / 10 * (1 / (r + gl * sigma))) (5 / 10)) (min (10 * (1 / (r + gl * sigma))) 50) \<le> n \<and>
           n \<le> max (max (1 / 10 * (1 / (r + gl * sigma))) (5 / 10)) (min (10 * (1 / (r + gl * sigma))) 50) \<and>
           0 < n"
proof -
  define ng where "ng = 1 / (r + gl * sigma)"
  define lo where "lo = max (1 / 10 * ng) (5 / 10)"
  define hi where "hi = min (10 * ng) 50"
  have ng: "0 < ng" using a by (simp add: ng_def add_pos_nonneg)
  have u: "psychological_anchor_nonlinear rs Phi (Fin sigma) (Fin r) (Fin gl) =
     (case rs (equation Phi (Fin sigma) (Fin r)) (Fin lo) (Fin hi) Bisect (1 / 10 ^ 6) of
        Inl e \<Rightarrow> NaN
      | Inr sol \<Rightarrow> if converged sol then rootv sol else NaN)"
    unfolding lo_def hi_def ng_def by (rule solver_unfold [OF a])
  from res u obtain sol where sol:
    "rs (equation Phi (Fin sigma) (Fin r)) (Fin lo) (Fin hi) Bisect (1 / 10 ^ 6) = Inr sol"
    "converged sol"
    by (auto split: sum.splits if_splits)
  with c obtain x where x: "rootv sol = Fin x" "min lo hi \<le> x" "x \<le> max lo hi"
    unfolding root_scalar_contract_def by blast
  have "0 < min lo hi" using ng by (simp add: lo_def hi_def)
  with x(2) have "0 < x" by linarith
  with x sol u show ?thesis
    unfolding lo_def hi_def ng_def by simp
qed

lemma equation_residual:
  assumes "\<forall>x\<ge>0. 1 / 2 \<le> Phi x" and "0 \<le> sigma" and "0 < r" and "0 < n"
  shows "\<exists>c. riskPremium Phi sigma n = Fin c \<and> 0 \<le> c \<and>
           equation Phi (Fin sigma) (Fin r) (Fin n) = Inr (Fin (n - 1 / (r + c)))"
proof -
  from riskPremium_nonneg [OF assms(1,2,4)] obtain c where
    c: "riskPremium Phi sigma n = Fin c" "0 \<le> c" by blast
  then have v: "val (zz_risk_premium Phi (Fin sigma) (Fin n)) = Fin c"
    by (simp add: zz_risk_premium_Fin)
  have pos: "r + c \<noteq> 0" using assms(3) c(2) by linarith
  have "equation Phi (Fin sigma) (Fin r) (Fin n) = Inr (Fin (n - 1 / (r + c)))"
    using v assms(4) pos
    by (cases "zz_risk_premium Phi (Fin sigma) (Fin n)") (simp_all add: equation_def Let_def)
  with c show ?thesis by blast
qed

lemma solver_failures:
  assumes c: "root_scalar_contract rs" and a: "0 \<le> sigma" "0 < r" "0 \<le> gl"
  shows "let f = equation Phi (Fin sigma) (Fin r);
             lo = bracket_low (n_guess_of (Fin sigma) (Fin r) (Fin gl));
             hi = bracket_high (n_guess_of (Fin sigma) (Fin r) (Fin gl));
             res = psychological_anchor_nonlinear rs Phi (Fin sigma) (Fin r) (Fin gl)
         in ((\<exists>e. rs f lo hi Bisect (1 / 10 ^ 6) = Inl e) \<longrightarrow> res = NaN) \<and>
            (\<forall>sol. rs f lo hi Bisect (1 / 10 ^ 6) = Inr sol \<and> \<not> converged sol \<longrightarrow> res = NaN) \<and>
            (\<forall>fa fb. f lo = Inr fa \<and> f hi = Inr fb \<and>
                 (fl_lt (Fin 0) fa \<and> fl_lt (Fin 0) fb \<or> fl_lt fa (Fin 0) \<and> fl_lt fb (Fin 0))
               \<longrightarrow> res = NaN)"
proof -
  define f where "f = equation Phi (Fin sigma) (Fin r)"
  define lo where "lo = max (1 / 10 * (1 / (r + gl * sigma))) (5 / 10)"
  define hi where "hi = min (10 * (1 / (r + gl * sigma))) 50"
  define res where "res = psychological_anchor_nonlinear rs Phi (Fin sigma) (Fin r) (Fin gl)"
  have lo: "bracket_low (n_guess_of (Fin sigma) (Fin r) (Fin gl)) = Fin lo"
    and hi: "bracket_high (n_guess_of (Fin sigma) (Fin r) (Fin gl)) = Fin hi"
    unfolding n_guess_Fin [OF a] bracket_low_def bracket_high_def lo_def hi_def by simp_all
  have u: "res = (case rs f (Fin lo) (Fin hi) Bisect (1 / 10 ^ 6) of
        Inl e \<Rightarrow> NaN | Inr sol \<Rightarrow> if converged sol then rootv sol else NaN)"
    unfolding res_def f_def lo_def hi_def by (rule solver_unfold [OF a])
  have 1: "(\<exists>e. rs f (Fin lo) (Fin hi) Bisect (1 / 10 ^ 6) = Inl e) \<longrightarrow> res = NaN"
    using u by auto
  have 2: "\<forall>sol. rs f (Fin lo) (Fin hi) Bisect (1 / 10 ^ 6) = Inr sol \<and> \<not> converged sol \<longrightarrow> res = NaN"
    using u by auto
  have 3: "\<forall>fa fb. f (Fin lo) = Inr fa \<and> f (Fin hi) = Inr fb \<and>
                 (fl_lt (Fin 0) fa \<and> fl_lt (Fin 0) fb \<or> fl_lt fa (Fin 0) \<and> fl_lt fb (Fin 0))
               \<longrightarrow> res = NaN"
  proof (intro allI impI)
    fix fa fb
    assume h: "f (Fin lo) = Inr fa \<and> f (Fin hi) = Inr fb \<and>
                 (fl_lt (Fin 0) fa \<and> fl_lt (Fin 0) fb \<or> fl_lt fa (Fin 0) \<and> fl_lt fb (Fin 0))"
    with c have "\<exists>e. rs f (Fin lo) (Fin hi) Bisect (1 / 10 ^ 6) = Inl e"
      unfolding root_scalar_contract_def by blast
    with 1 show "res = NaN" by blast
  qed
  show ?thesis
    unfolding Let_def lo hi using 1 2 3 unfolding f_def res_def by blast
qed

lemma R_pos: "R = Fin (18 / 1000) \<and> (0::real) < 18 / 1000"
  by (simp add: R_def)


lemma bisect_loop_step:
  "0 < k \<Longrightarrow> bisect_loop f xa dm fa xtol rtol k =
     (let dm' = fl_mul dm (Fin (1 / 2));
          xm = fl_add xa dm'
      in case f xm of
           Inl e \<Rightarrow> Inl e
         | Inr fm \<Rightarrow>
             if is_nan fm then Inl ValueError
             else let xa' = (if fl_le (Fin 0) (fl_mul fm fa) then xm else xa)
                  in if fm = Fin 0 \<or>
                        fl_lt (fl_abs dm') (fl_add (Fin xtol) (fl_mul (Fin rtol) (fl_abs xm)))
                     then Inr \<lparr>rootv = xm, converged = True\<rparr>
                     else bisect_loop f xa' dm' fa xtol rtol (k - 1))"
proof (cases k)
  case 0
  assume "0 < k"
  with 0 show ?thesis by simp
next
  case (Suc m)
  show ?thesis unfolding Suc by (simp only: bisect_loop.simps diff_Suc_1)
qed

lemma equation_sigma0:
  "0 < n \<Longrightarrow> r \<noteq> 0 \<Longrightarrow> equation Phi_sigmoid (Fin 0) (Fin r) (Fin n) = Inr (Fin (n - 1 / r))"
  by (simp add: equation_def zz_risk_premium_def Phi_sigmoid_def Let_def)

lemma solved_example:
  "psychological_anchor_nonlinear root_scalar_bisect Phi_sigmoid (Fin 0) (Fin (19 / 500))
     guess_lam_default = Fin (500 / 19)"
  by (simp add: psychological_anchor_nonlinear_def n_guess_of_def guess_lam_default_def
      bracket_low_def bracket_high_def root_scalar_bisect_def bisect_def bisect_loop_step
      equation_sigma0 Let_def)

lemma failed_example:
  "n_nonlin root_scalar_bisect Phi_sigmoid [Fin 0] = [NaN]"
  by (simp add: n_nonlin_def R_def psychological_anchor_nonlinear_def n_guess_of_def
      guess_lam_default_def bracket_low_def bracket_high_def root_scalar_bisect_def bisect_def
      equation_sigma0 Let_def)

lemma sigma_grid_nonneg: "\<forall>s\<in>set sigma_grid. \<exists>sigma\<ge>0. s = Fin sigma"
  by (auto simp: sigma_grid_def np_linspace_def N_POINTS_def SIGMA_MIN_def SIGMA_MAX_def)

lemma bisect_loop_converges:
  assumes tot: "\<forall>x. \<exists>v. f (Fin x) = Inr v \<and> \<not> is_nan v"
    and tol: "0 < xtol" "0 \<le> rtol"
  shows "0 < k \<Longrightarrow> \<bar>dm\<bar> / 2 ^ k < xtol \<Longrightarrow>
     \<exists>sol. bisect_loop f (Fin xa) (Fin dm) fa xtol rtol k = Inr sol \<and> converged sol"
proof (induction k arbitrary: xa dm)
  case 0
  then show ?case by simp
next
  case (Suc k)
  let ?xm = "xa + dm * (1 / 2)"
  from tot obtain fm where fm: "f (Fin ?xm) = Inr fm" "\<not> is_nan fm" by blast
  show ?case
  proof (cases "fm = Fin 0 \<or> \<bar>dm * (1 / 2)\<bar> < xtol + rtol * \<bar>?xm\<bar>")
    case True
    then show ?thesis using fm by (auto simp: Let_def)
  next
    case False
    then have big: "xtol \<le> \<bar>dm * (1 / 2)\<bar>"
      using tol(2) by (smt (verit) mult_nonneg_nonneg abs_ge_zero)
    have k: "0 < k"
    proof (rule ccontr)
      assume "\<not> 0 < k"
      then have "k = 0" by simp
      with Suc.prems(2) big show False by simp
    qed
    have sm: "\<bar>dm * (1 / 2)\<bar> / 2 ^ k < xtol"
      using Suc.prems(2) by (simp add: abs_mult)
    define xa' where "xa' = (if fl_le (Fin 0) (fl_mul fm fa) then ?xm else xa)"
    from Suc.IH [OF k sm, of xa'] obtain sol where
      "bisect_loop f (Fin xa') (Fin (dm * (1 / 2))) fa xtol rtol k = Inr sol" "converged sol"
      by blast
    then show ?thesis using fm False by (auto simp: Let_def xa'_def)
  qed
qed

lemma bisect_converges:
  assumes tot: "\<forall>x. \<exists>v. f (Fin x) = Inr v \<and> \<not> is_nan v"
    and tol: "0 < xtol" "0 \<le> rtol"
    and ends: "f (Fin a) = Inr fa" "f (Fin b) = Inr fb"
    and sgn: "fl_lt fa (Fin 0) \<noteq> fl_lt fb (Fin 0)"
    and k: "0 < k" "\<bar>b - a\<bar> / 2 ^ k < xtol"
  shows "\<exists>sol. bisect f (Fin a) (Fin b) xtol rtol k = Inr sol \<and> converged sol"
proof -
  from tot ends have nn: "\<not> is_nan fa" "\<not> is_nan fb"
    by (metis Inr_inject)+
  from bisect_loop_converges [OF tot tol k, of a fa] obtain sol where
    "bisect_loop f (Fin a) (Fin (b - a)) fa xtol rtol k = Inr sol" "converged sol" by blast
  then show ?thesis using ends nn sgn by (auto simp: bisect_def)
qed

lemma equation_total:
  assumes "\<forall>x\<ge>0. 1 / 2 \<le> Phi x" and "0 \<le> sigma" and "0 < r"
  shows "\<forall>x. \<exists>v. equation Phi (Fin sigma) (Fin r) (Fin x) = Inr v \<and> \<not> is_nan v"
proof
  fix x
  show "\<exists>v. equation Phi (Fin sigma) (Fin r) (Fin x) = Inr v \<and> \<not> is_nan v"
  proof (cases "0 < x")
    case True
    from equation_residual [OF assms True] show ?thesis by auto
  next
    case False
    then show ?thesis by (simp add: equation_def)
  qed
qed

lemma riskPremium_sigmoid:
  assumes "0 \<le> sigma" and "0 < n" and "sigma * sqrt n / 4 \<le> 1"
  shows "riskPremium Phi_sigmoid sigma n = Fin (ln (1 + sigma * sqrt n / 4) / n)"
proof -
  define x where "x = sigma * sqrt n / 4"
  have x: "0 \<le> x" "x \<le> 1" using assms by (simp_all add: x_def)
  have arg: "2 * (1 - Phi_sigmoid x) = 1 / (1 + x)"
    using x by (simp add: Phi_sigmoid_def field_simps)
  have "(1::real) / 10 ^ 12 \<le> 1 / 2" by simp
  also have "\<dots> \<le> 1 / (1 + x)" using x by (simp add: field_simps)
  finally have ns: "\<not> 1 / (1 + x) < 1 / 10 ^ 12" by simp
  have "- ln (1 / (1 + x)) = ln (1 + x)" using x by (simp add: ln_div)
  then show ?thesis
    using assms(2) ns unfolding riskPremium_def Let_def x_def [symmetric] arg by simp
qed

lemma solver_success:
  assumes c: "root_scalar_contract rs" and a: "0 \<le> sigma" "0 < r" "0 \<le> gl"
  shows "\<forall>sol. rs (equation Phi (Fin sigma) (Fin r))
                 (bracket_low (n_guess_of (Fin sigma) (Fin r) (Fin gl)))
                 (bracket_high (n_guess_of (Fin sigma) (Fin r) (Fin gl)))
                 Bisect (1 / 10 ^ 6) = Inr sol \<and> converged sol \<longrightarrow>
           psychological_anchor_nonlinear rs Phi (Fin sigma) (Fin r) (Fin gl) = rootv sol \<and>
           (\<exists>n. rootv sol = Fin n \<and> 0 < n)"
proof (intro allI impI)
  fix sol
  assume h: "rs (equation Phi (Fin sigma) (Fin r))
                 (bracket_low (n_guess_of (Fin sigma) (Fin r) (Fin gl)))
                 (bracket_high (n_guess_of (Fin sigma) (Fin r) (Fin gl)))
                 Bisect (1 / 10 ^ 6) = Inr sol \<and> converged sol"
  then have r: "psychological_anchor_nonlinear rs Phi (Fin sigma) (Fin r) (Fin gl) = rootv sol"
    by (simp add: psychological_anchor_nonlinear_def Let_def)
  have lo: "bracket_low (n_guess_of (Fin sigma) (Fin r) (Fin gl))
              = Fin (max (1 / 10 * (1 / (r + gl * sigma))) (5 / 10))"
    and hi: "bracket_high (n_guess_of (Fin sigma) (Fin r) (Fin gl))
              = Fin (min (10 * (1 / (r + gl * sigma))) 50)"
    unfolding n_guess_Fin [OF a] bracket_low_def bracket_high_def by simp_all
  from h c obtain x where x: "rootv sol = Fin x"
    unfolding lo hi root_scalar_contract_def by blast
  with r have "psychological_anchor_nonlinear rs Phi (Fin sigma) (Fin r) (Fin gl) \<noteq> NaN" by simp
  from solver_in_bracket [OF c a this] r x show
    "psychological_anchor_nonlinear rs Phi (Fin sigma) (Fin r) (Fin gl) = rootv sol \<and>
       (\<exists>n. rootv sol = Fin n \<and> 0 < n)" by auto
qed

lemma residual_low:
  "\<exists>fa. equation Phi_sigmoid (Fin (65 / 100)) (Fin (18 / 1000)) (Fin (1 / 2)) = Inr fa \<and>
        fl_lt fa (Fin 0)"
proof -
  define s :: real where "s = sqrt (1 / 2)"
  define x :: real where "x = 65 / 100 * s / 4"
  have s1: "s \<le> 1" unfolding s_def by (rule real_le_lsqrt) simp_all
  have s0: "0 \<le> s" unfolding s_def by simp
  have x: "0 \<le> x" "x \<le> 1" using s0 s1 by (simp_all add: x_def)
  have rp: "riskPremium Phi_sigmoid (65 / 100) (1 / 2) = Fin (ln (1 + x) / (1 / 2))"
    unfolding x_def s_def
  proof (rule riskPremium_sigmoid)
    show "65 / 100 * sqrt (1 / 2) / 4 \<le> (1::real)" using x(2) unfolding x_def s_def .
  qed simp_all
  from equation_residual [OF Phi_sigmoid_half, of "65 / 100" "18 / 1000" "1 / 2"]
  obtain c where c: "riskPremium Phi_sigmoid (65 / 100) (1 / 2) = Fin c" "0 \<le> c"
    "equation Phi_sigmoid (Fin (65 / 100)) (Fin (18 / 1000)) (Fin (1 / 2))
       = Inr (Fin (1 / 2 - 1 / (18 / 1000 + c)))"
    by auto
  from c(1) rp have ceq: "c = ln (1 + x) / (1 / 2)" by simp
  have "ln (1 + x) \<le> x" using x(1) by (simp add: ln_add_one_self_le_self)
  moreover have "x \<le> 1 / 4" using s1 by (simp add: x_def)
  ultimately have "c \<le> 1 / 2" by (simp add: ceq)
  with c(2) have "18 / 1000 + c < 2 * 1" "0 < 18 / 1000 + c" by simp_all
  then have "1 / 2 < 1 / (18 / 1000 + c)"
    by (simp add: field_simps)
  with c(3) show ?thesis by simp
qed

lemma residual_high:
  "\<exists>fb. equation Phi_sigmoid (Fin (65 / 100)) (Fin (18 / 1000)) (Fin (5000 / 139)) = Inr fb \<and>
        fl_lt (Fin 0) fb"
proof -
  define s :: real where "s = sqrt (5000 / 139)"
  define x :: real where "x = 65 / 100 * s / 4"
  have s1: "s \<le> 6" unfolding s_def by (rule real_le_lsqrt) simp_all
  have s2: "4 \<le> s" unfolding s_def by (rule real_le_rsqrt) simp
  have x: "65 / 100 \<le> x" "x \<le> 1" using s1 s2 by (simp_all add: x_def)
  have rp: "riskPremium Phi_sigmoid (65 / 100) (5000 / 139) = Fin (ln (1 + x) / (5000 / 139))"
    unfolding x_def s_def
  proof (rule riskPremium_sigmoid)
    show "65 / 100 * sqrt (5000 / 139) / 4 \<le> (1::real)" using x(2) unfolding x_def s_def .
  qed simp_all
  from equation_residual [OF Phi_sigmoid_half, of "65 / 100" "18 / 1000" "5000 / 139"]
  obtain c where c: "riskPremium Phi_sigmoid (65 / 100) (5000 / 139) = Fin c" "0 \<le> c"
    "equation Phi_sigmoid (Fin (65 / 100)) (Fin (18 / 1000)) (Fin (5000 / 139))
       = Inr (Fin (5000 / 139 - 1 / (18 / 1000 + c)))"
    by auto
  from c(1) rp have ceq: "c = ln (1 + x) / (5000 / 139)" by simp
  have px: "0 < 1 + x" using x(1) by simp
  have "ln (1 / (1 + x)) \<le> 1 / (1 + x) - 1"
    using px by (intro ln_le_minus_one) simp
  moreover have "ln (1 / (1 + x)) = - ln (1 + x)" using px by (simp add: ln_div)
  moreover have "1 / (1 + x) \<le> 20 / 33" using x(1) by (simp add: field_simps)
  ultimately have "13 / 33 \<le> ln (1 + x)" by linarith
  then have "13 / 33 * (139 / 5000) \<le> c" by (simp add: ceq)
  then have "139 / 5000 < 18 / 1000 + c" by simp
  then have "1 / (18 / 1000 + c) < 5000 / 139"
    using c(2) by (simp add: field_simps)
  with c(3) show ?thesis by simp
qed

lemma sigma_grid_last: "length sigma_grid = 300 \<and> sigma_grid ! 299 = Fin (65 / 100)"
  by (simp add: sigma_grid_def np_linspace_def N_POINTS_def SIGMA_MIN_def SIGMA_MAX_def)

lemma bracket_grid_last:
  "bracket_low (n_guess_of (Fin (65 / 100)) R guess_lam_default) = Fin (1 / 2) \<and>
   bracket_high (n_guess_of (Fin (65 / 100)) R guess_lam_default) = Fin (5000 / 139)"
  by (simp add: bracket_low_def bracket_high_def n_guess_of_def R_def guess_lam_default_def)

lemma converged_grid_last:
  "\<exists>sol. root_scalar_bisect (equation Phi_sigmoid (Fin (65 / 100)) R)
            (bracket_low (n_guess_of (Fin (65 / 100)) R guess_lam_default))
            (bracket_high (n_guess_of (Fin (65 / 100)) R guess_lam_default))
            Bisect (1 / 10 ^ 6) = Inr sol \<and> converged sol"
proof -
  have tot: "\<forall>x. \<exists>v. equation Phi_sigmoid (Fin (65 / 100)) (Fin (18 / 1000)) (Fin x) = Inr v \<and> \<not> is_nan v"
    by (rule equation_total [OF Phi_sigmoid_half]) simp_all
  from residual_low obtain fa where fa:
    "equation Phi_sigmoid (Fin (65 / 100)) (Fin (18 / 1000)) (Fin (1 / 2)) = Inr fa" "fl_lt fa (Fin 0)"
    by blast
  from residual_high obtain fb where fb:
    "equation Phi_sigmoid (Fin (65 / 100)) (Fin (18 / 1000)) (Fin (5000 / 139)) = Inr fb" "fl_lt (Fin 0) fb"
    by blast
  from fb(2) have nb: "\<not> fl_lt fb (Fin 0)" by (cases fb) auto
  have "\<exists>sol. bisect (equation Phi_sigmoid (Fin (65 / 100)) (Fin (18 / 1000)))
                 (Fin (1 / 2)) (Fin (5000 / 139)) (1 / 10 ^ 6) (1 / 2 ^ 50) 100 = Inr sol \<and>
               converged sol"
  proof (rule bisect_converges [OF tot _ _ fa(1) fb(1)])
    show "fl_lt fa (Fin 0) \<noteq> fl_lt fb (Fin 0)" using fa(2) nb by simp
    show "\<bar>5000 / 139 - 1 / 2\<bar> / 2 ^ 100 < (1::real) / 10 ^ 6" by simp
  qed simp_all
  then show ?thesis
    unfolding conjunct1 [OF bracket_grid_last] conjunct2 [OF bracket_grid_last]
      root_scalar_bisect_def
    unfolding conjunct1 [OF R_pos] .
qed


text \<open>
  Claim C1. Let the root finder keep its contract and let every grid volatility be finite
  and not negative. The sweep returns one value per grid point, each computed by the
  solver at that point with the module's rate and the default coefficient. Every value is
  either not-a-number or a finite number strictly greater than zero, and the validity mask
  is true exactly at the values that are not not-a-number. At every grid point: when the
  root finder returns a converged result, the value is that root, a finite number strictly
  greater than zero; the value is not-a-number when the root finder raises, which by its
  contract it does for a bracket at whose ends the residual has values of one strict sign,
  and when it reports no convergence. An exception of the residual leaves the library call
  as an exception as well. The sweep is a total function: no point stops it.
\<close>

theorem solver_sweep:
  assumes "root_scalar_contract rs" and "\<forall>s\<in>set grid. \<exists>sigma\<ge>0. s = Fin sigma"
  shows "length (n_nonlin rs Phi grid) = length grid \<and>
         length (valid_mask (n_nonlin rs Phi grid)) = length grid \<and>
         (\<forall>i<length grid.
            n_nonlin rs Phi grid ! i = psychological_anchor_nonlinear rs Phi (grid ! i) R guess_lam_default \<and>
            (n_nonlin rs Phi grid ! i = NaN \<or> (\<exists>n. n_nonlin rs Phi grid ! i = Fin n \<and> 0 < n)) \<and>
            (valid_mask (n_nonlin rs Phi grid) ! i \<longleftrightarrow> n_nonlin rs Phi grid ! i \<noteq> NaN)) \<and>
         (\<forall>s\<in>set grid.
            let f = equation Phi s R;
                lo = bracket_low (n_guess_of s R guess_lam_default);
                hi = bracket_high (n_guess_of s R guess_lam_default);
                res = psychological_anchor_nonlinear rs Phi s R guess_lam_default
            in ((\<exists>e. rs f lo hi Bisect (1 / 10 ^ 6) = Inl e) \<longrightarrow> res = NaN) \<and>
               (\<forall>sol. rs f lo hi Bisect (1 / 10 ^ 6) = Inr sol \<and> \<not> converged sol \<longrightarrow> res = NaN) \<and>
               (\<forall>fa fb. f lo = Inr fa \<and> f hi = Inr fb \<and>
                    (fl_lt (Fin 0) fa \<and> fl_lt (Fin 0) fb \<or> fl_lt fa (Fin 0) \<and> fl_lt fb (Fin 0))
                  \<longrightarrow> res = NaN) \<and>
               (\<forall>sol. rs f lo hi Bisect (1 / 10 ^ 6) = Inr sol \<and> converged sol \<longrightarrow>
                  res = rootv sol \<and> (\<exists>n. rootv sol = Fin n \<and> 0 < n)))"
proof -
  have gl: "guess_lam_default = Fin (4 / 10)" "(0::real) \<le> 4 / 10"
    by (simp_all add: guess_lam_default_def)
  have pt: "psychological_anchor_nonlinear rs Phi s R guess_lam_default = NaN \<or>
            (\<exists>n. psychological_anchor_nonlinear rs Phi s R guess_lam_default = Fin n \<and> 0 < n)"
    if "s \<in> set grid" for s
  proof -
    from that assms(2) obtain sigma where s: "s = Fin sigma" "0 \<le> sigma" by blast
    show ?thesis
      using solver_in_bracket [OF assms(1) s(2) conjunct2 [OF R_pos] gl(2), of Phi]
      unfolding s(1) gl(1) conjunct1 [OF R_pos] by blast
  qed
  have nan: "(v \<noteq> NaN) = (\<not> is_nan v)" for v by (cases v) auto
  have a: "\<forall>i<length grid.
            n_nonlin rs Phi grid ! i = psychological_anchor_nonlinear rs Phi (grid ! i) R guess_lam_default \<and>
            (n_nonlin rs Phi grid ! i = NaN \<or> (\<exists>n. n_nonlin rs Phi grid ! i = Fin n \<and> 0 < n)) \<and>
            (valid_mask (n_nonlin rs Phi grid) ! i \<longleftrightarrow> n_nonlin rs Phi grid ! i \<noteq> NaN)"
    using pt by (simp add: n_nonlin_def valid_mask_def nan)
  have b: "let f = equation Phi s R;
                lo = bracket_low (n_guess_of s R guess_lam_default);
                hi = bracket_high (n_guess_of s R guess_lam_default);
                res = psychological_anchor_nonlinear rs Phi s R guess_lam_default
            in ((\<exists>e. rs f lo hi Bisect (1 / 10 ^ 6) = Inl e) \<longrightarrow> res = NaN) \<and>
               (\<forall>sol. rs f lo hi Bisect (1 / 10 ^ 6) = Inr sol \<and> \<not> converged sol \<longrightarrow> res = NaN) \<and>
               (\<forall>fa fb. f lo = Inr fa \<and> f hi = Inr fb \<and>
                    (fl_lt (Fin 0) fa \<and> fl_lt (Fin 0) fb \<or> fl_lt fa (Fin 0) \<and> fl_lt fb (Fin 0))
                  \<longrightarrow> res = NaN) \<and>
               (\<forall>sol. rs f lo hi Bisect (1 / 10 ^ 6) = Inr sol \<and> converged sol \<longrightarrow>
                  res = rootv sol \<and> (\<exists>n. rootv sol = Fin n \<and> 0 < n))"
    if "s \<in> set grid" for s
  proof -
    from that assms(2) obtain sigma where s: "s = Fin sigma" "0 \<le> sigma" by blast
    have f: "let f = equation Phi s R;
                lo = bracket_low (n_guess_of s R guess_lam_default);
                hi = bracket_high (n_guess_of s R guess_lam_default);
                res = psychological_anchor_nonlinear rs Phi s R guess_lam_default
            in ((\<exists>e. rs f lo hi Bisect (1 / 10 ^ 6) = Inl e) \<longrightarrow> res = NaN) \<and>
               (\<forall>sol. rs f lo hi Bisect (1 / 10 ^ 6) = Inr sol \<and> \<not> converged sol \<longrightarrow> res = NaN) \<and>
               (\<forall>fa fb. f lo = Inr fa \<and> f hi = Inr fb \<and>
                    (fl_lt (Fin 0) fa \<and> fl_lt (Fin 0) fb \<or> fl_lt fa (Fin 0) \<and> fl_lt fb (Fin 0))
                  \<longrightarrow> res = NaN)"
      using solver_failures [OF assms(1) s(2) conjunct2 [OF R_pos] gl(2), of Phi]
      unfolding s(1) gl(1) conjunct1 [OF R_pos] .
    have g: "\<forall>sol. rs (equation Phi s R) (bracket_low (n_guess_of s R guess_lam_default))
                 (bracket_high (n_guess_of s R guess_lam_default)) Bisect (1 / 10 ^ 6) = Inr sol \<and>
               converged sol \<longrightarrow>
               psychological_anchor_nonlinear rs Phi s R guess_lam_default = rootv sol \<and>
               (\<exists>n. rootv sol = Fin n \<and> 0 < n)"
      using solver_success [OF assms(1) s(2) conjunct2 [OF R_pos] gl(2), of Phi]
      unfolding s(1) gl(1) conjunct1 [OF R_pos] .
    from f g show ?thesis unfolding Let_def by blast
  qed
  have l: "length (n_nonlin rs Phi grid) = length grid"
    "length (valid_mask (n_nonlin rs Phi grid)) = length grid"
    by (simp_all add: n_nonlin_def valid_mask_def)
  show ?thesis using l a b by blast
qed


theorem solver_sweep_witness:
  "sigma_grid ! 299 = Fin (65 / 100) \<and>
   (\<exists>n. n_nonlin root_scalar_bisect Phi_sigmoid sigma_grid ! 299 = Fin n \<and> 0 < n) \<and>
   valid_mask (n_nonlin root_scalar_bisect Phi_sigmoid sigma_grid) ! 299 \<and>
   n_nonlin root_scalar_bisect Phi_sigmoid [Fin 0] = [NaN] \<and>
   valid_mask (n_nonlin root_scalar_bisect Phi_sigmoid [Fin 0]) = [False]"
proof -
  note t = solver_sweep [OF root_scalar_bisect_contract sigma_grid_nonneg, of Phi_sigmoid]
  have i: "299 < length sigma_grid" and g: "sigma_grid ! 299 = Fin (65 / 100)"
    using sigma_grid_last by simp_all
  then have mem: "Fin (65 / 100) \<in> set sigma_grid" by (metis nth_mem)
  from converged_grid_last obtain sol where sol:
    "root_scalar_bisect (equation Phi_sigmoid (Fin (65 / 100)) R)
            (bracket_low (n_guess_of (Fin (65 / 100)) R guess_lam_default))
            (bracket_high (n_guess_of (Fin (65 / 100)) R guess_lam_default))
            Bisect (1 / 10 ^ 6) = Inr sol" "converged sol"
    by blast
  from t have "\<forall>s\<in>set sigma_grid. \<forall>sol.
      root_scalar_bisect (equation Phi_sigmoid s R)
         (bracket_low (n_guess_of s R guess_lam_default))
         (bracket_high (n_guess_of s R guess_lam_default)) Bisect (1 / 10 ^ 6) = Inr sol \<and>
      converged sol \<longrightarrow>
      psychological_anchor_nonlinear root_scalar_bisect Phi_sigmoid s R guess_lam_default = rootv sol \<and>
      (\<exists>n. rootv sol = Fin n \<and> 0 < n)"
    unfolding Let_def by blast
  with mem sol obtain n where n:
    "psychological_anchor_nonlinear root_scalar_bisect Phi_sigmoid (Fin (65 / 100)) R guess_lam_default = Fin n"
    "0 < n"
    by metis
  from t i have "n_nonlin root_scalar_bisect Phi_sigmoid sigma_grid ! 299 =
      psychological_anchor_nonlinear root_scalar_bisect Phi_sigmoid (sigma_grid ! 299) R guess_lam_default"
    and "valid_mask (n_nonlin root_scalar_bisect Phi_sigmoid sigma_grid) ! 299 \<longleftrightarrow>
      n_nonlin root_scalar_bisect Phi_sigmoid sigma_grid ! 299 \<noteq> NaN"
    by blast+
  with n g have "n_nonlin root_scalar_bisect Phi_sigmoid sigma_grid ! 299 = Fin n"
    and "valid_mask (n_nonlin root_scalar_bisect Phi_sigmoid sigma_grid) ! 299"
    by simp_all
  with n(2) g show ?thesis by (simp add: failed_example valid_mask_def)
qed

text \<open>
  Claim C3. Let the root finder keep its contract, let \<open>Phi x \<ge> 1/2\<close> for \<open>x \<ge> 0\<close>,
  \<open>sigma \<ge> 0\<close> and \<open>r > 0\<close>. With the default coefficient the seed is
  \<open>n_guess = 1 / (r + 0.4 * sigma)\<close>, the two ends of the bracket are
  \<open>max (0.1 * n_guess) 0.5\<close> and \<open>min (10 * n_guess) 50\<close>, and the solver is the root
  finder called on the residual with these ends, the bisection method and the absolute
  tolerance \<open>10\<^sup>-\<^sup>6\<close>. A value that is not not-a-number lies between the two ends, which
  are in order when \<open>0.05 \<le> n_guess \<le> 500\<close>. On \<open>n > 0\<close> the residual is
  \<open>n - 1 / (r + c)\<close>, with \<open>c\<close> the risk premium at \<open>sigma\<close> and \<open>n\<close>.
\<close>

theorem solver_bracket:
  assumes "root_scalar_contract rs" and "\<forall>x\<ge>0. 1 / 2 \<le> Phi x"
    and "0 \<le> sigma" and "0 < r"
  shows "let n_guess = 1 / (r + 4 / 10 * sigma);
             lo = max (1 / 10 * n_guess) (5 / 10);
             hi = min (10 * n_guess) 50;
             res = psychological_anchor_nonlinear rs Phi (Fin sigma) (Fin r) guess_lam_default
         in n_guess_of (Fin sigma) (Fin r) guess_lam_default = Fin n_guess \<and>
            bracket_low (Fin n_guess) = Fin lo \<and>
            bracket_high (Fin n_guess) = Fin hi \<and>
            res = (case rs (equation Phi (Fin sigma) (Fin r)) (Fin lo) (Fin hi) Bisect (1 / 10 ^ 6) of
                     Inl e \<Rightarrow> NaN
                   | Inr sol \<Rightarrow> if converged sol then rootv sol else NaN) \<and>
            (res = NaN \<or> (\<exists>n. res = Fin n \<and> min lo hi \<le> n \<and> n \<le> max lo hi)) \<and>
            (1 / 20 \<le> n_guess \<and> n_guess \<le> 500 \<longrightarrow> lo \<le> hi) \<and>
            (\<forall>n>0. \<exists>c\<ge>0. riskPremium Phi sigma n = Fin c \<and>
               equation Phi (Fin sigma) (Fin r) (Fin n) = Inr (Fin (n - 1 / (r + c))))"
proof -
  have gl: "guess_lam_default = Fin (4 / 10)" "(0::real) \<le> 4 / 10"
    by (simp_all add: guess_lam_default_def)
  note a = assms(3,4) gl(2)
  have 1: "n_guess_of (Fin sigma) (Fin r) guess_lam_default = Fin (1 / (r + 4 / 10 * sigma))"
    unfolding gl(1) by (rule n_guess_Fin [OF a])
  have 2: "bracket_low (Fin ng) = Fin (max (1 / 10 * ng) (5 / 10))"
    and 3: "bracket_high (Fin ng) = Fin (min (10 * ng) 50)" for ng
    by (simp_all add: bracket_low_def bracket_high_def)
  have 4: "psychological_anchor_nonlinear rs Phi (Fin sigma) (Fin r) guess_lam_default =
     (case rs (equation Phi (Fin sigma) (Fin r))
              (Fin (max (1 / 10 * (1 / (r + 4 / 10 * sigma))) (5 / 10)))
              (Fin (min (10 * (1 / (r + 4 / 10 * sigma))) 50)) Bisect (1 / 10 ^ 6) of
        Inl e \<Rightarrow> NaN
      | Inr sol \<Rightarrow> if converged sol then rootv sol else NaN)"
    unfolding gl(1) by (rule solver_unfold [OF a])
  have 5: "psychological_anchor_nonlinear rs Phi (Fin sigma) (Fin r) guess_lam_default = NaN \<or>
     (\<exists>n. psychological_anchor_nonlinear rs Phi (Fin sigma) (Fin r) guess_lam_default = Fin n \<and>
        min (max (1 / 10 * (1 / (r + 4 / 10 * sigma))) (5 / 10)) (min (10 * (1 / (r + 4 / 10 * sigma))) 50) \<le> n \<and>
        n \<le> max (max (1 / 10 * (1 / (r + 4 / 10 * sigma))) (5 / 10)) (min (10 * (1 / (r + 4 / 10 * sigma))) 50))"
    using solver_in_bracket [OF assms(1) a, of Phi] unfolding gl(1) by blast
  have 6: "1 / 20 \<le> ng \<and> ng \<le> 500 \<longrightarrow> max (1 / 10 * ng) (5 / 10) \<le> min (10 * ng) 50" for ng :: real
    by auto
  have 7: "\<forall>n>0. \<exists>c\<ge>0. riskPremium Phi sigma n = Fin c \<and>
               equation Phi (Fin sigma) (Fin r) (Fin n) = Inr (Fin (n - 1 / (r + c)))"
    using equation_residual [OF assms(2,3,4)] by blast
  show ?thesis
    unfolding Let_def using 1 2 3 4 5 6 7 by blast
qed


theorem solver_bracket_witness:
  "(0::real) \<le> 0 \<and> (0::real) < 19 / 500 \<and>
   n_guess_of (Fin 0) (Fin (19 / 500)) guess_lam_default = Fin (500 / 19) \<and>
   bracket_low (Fin (500 / 19)) = Fin (50 / 19) \<and>
   bracket_high (Fin (500 / 19)) = Fin 50 \<and>
   psychological_anchor_nonlinear root_scalar_bisect Phi_sigmoid (Fin 0) (Fin (19 / 500))
     guess_lam_default = Fin (500 / 19)"
proof -
  have h: "(0::real) \<le> 0" "(0::real) < 19 / 500" by simp_all
  from solver_bracket [OF root_scalar_bisect_contract Phi_sigmoid_half h]
  have "n_guess_of (Fin 0) (Fin (19 / 500)) guess_lam_default = Fin (500 / 19) \<and>
        bracket_low (Fin (500 / 19)) = Fin (50 / 19) \<and>
        bracket_high (Fin (500 / 19)) = Fin 50"
    by (simp add: Let_def)
  then show ?thesis using solved_example by simp
qed

end
